theory Spec2Isabelle
  imports Complex_Main
begin

section \<open>Values, source records and the host\<close>

text \<open>
  The proxy of \<^verbatim>\<open>custom_components/nest_matters/climate.py\<close> passes Python values
  through without computing on them. A float's payload is never inspected, so it is
  carried as a real number.
\<close>

datatype pyval =
    PNone
  | PBool bool
  | PInt int
  | PFloat real
  | PStr string
  | PList "pyval list"

text \<open>
  A Python \<^verbatim>\<open>dict\<close> with string keys: an association list read through
  \<^const>\<open>map_of\<close>. It is falsy exactly when it is empty.
  \<^verbatim>\<open>d.get(key, default)\<close> is \<open>dict_get\<close>.
\<close>

type_synonym pydict = "(string \<times> pyval) list"

definition dict_get :: "pydict \<Rightarrow> string \<Rightarrow> pyval \<Rightarrow> pyval" where
  "dict_get d key dflt = (case map_of d key of None \<Rightarrow> dflt | Some v \<Rightarrow> v)"

text \<open>
  The host's \<^verbatim>\<open>State\<close> object, as the registry hands it out:
  \<^verbatim>\<open>record{ state: string, attributes: mapping }\<close>. The class defines neither
  \<^verbatim>\<open>__bool__\<close> nor \<^verbatim>\<open>__len__\<close>, so a present record is truthy.
\<close>

record State =
  state :: string
  attributes :: pydict

datatype error = ValueError | KeyError | ServiceNotFound | HomeAssistantError

datatype outcome = Returned | Raised error

datatype UnitOfTemperature = CELSIUS | FAHRENHEIT | KELVIN

datatype ClimateEntityFeature = TARGET_TEMPERATURE | FAN_MODE

text \<open>
  The proxy object. \<^verbatim>\<open>self.hass\<close> is the host, which every operation below
  takes as a separate argument. \<^verbatim>\<open>_remove_listeners\<close> holds the removers
  returned by the host's tracker; a remover is identified by the handle of the
  subscription it removes. Leading underscores of the field names are dropped.
\<close>

record NestMattersClimate =
  attr_name :: string
  matter_entity_id :: string
  google_entity_id :: string
  entry_id :: string
  attr_unique_id :: string
  attr_temperature_unit :: UnitOfTemperature
  attr_supported_features :: "ClimateEntityFeature list"
  remove_listeners :: "nat list"

text \<open>
  A callback registered with the host: the bound method
  \<^verbatim>\<open>self._handle_source_state_change\<close>. The method reads no mutable field of the
  proxy, so the proxy record captured at registration stands for the object.
\<close>

datatype callback = HandleSourceStateChange NestMattersClimate

record listener =
  handle :: nat
  entity_ids :: "string list"
  action :: callback

record service_call =
  domain :: string
  service :: string
  service_data :: pydict

record event =
  entity_id :: string
  old_state :: "State option"
  new_state :: "State option"

text \<open>
  The host (\<^verbatim>\<open>hass\<close>), an external collaborator of the proxy:
  \<^item> \<open>states\<close>: the entity registry, \<^verbatim>\<open>hass.states.get(entity_id)\<close>;
  \<^item> \<open>listeners\<close>, \<open>next_handle\<close>: the state-change subscriptions of the event bus;
  \<^item> \<open>calls\<close>: the service calls issued through \<^verbatim>\<open>hass.services.async_call\<close>;
  \<^item> \<open>written\<close>: the unique ids of the entities whose state was re-published, in order;
  \<^item> \<open>debug_log\<close>: the records of the module logger \<^verbatim>\<open>_LOGGER\<close>;
  \<^item> \<open>service_error\<close>: the error, if any, the dispatcher raises for a call;
  \<^item> \<open>stale_error\<close>: the error, if any, a remover raises when the subscription it
    removes is no longer registered. The spec leaves both open, so they are
    parameters of the host.
\<close>

record HomeAssistant =
  states :: "string \<rightharpoonup> State"
  listeners :: "listener list"
  next_handle :: nat
  calls :: "service_call list"
  written :: "string list"
  debug_log :: "(string \<times> pyval list) list"
  service_error :: "service_call \<Rightarrow> error option"
  stale_error :: "nat \<Rightarrow> error option"

subsection \<open>Constants\<close>

definition DOMAIN :: string where
  "DOMAIN = ''nest_matters''"

text \<open>\<^verbatim>\<open>homeassistant.const.ATTR_TEMPERATURE\<close>, a constant of the host.\<close>

definition ATTR_TEMPERATURE :: string where
  "ATTR_TEMPERATURE = ''temperature''"

section \<open>The proxy\<close>

subsection \<open>Construction\<close>

definition init :: "string \<Rightarrow> string \<Rightarrow> string \<Rightarrow> string \<Rightarrow> NestMattersClimate" where
  "init name matter_id google_id entry =
     \<lparr> attr_name = name,
       matter_entity_id = matter_id,
       google_entity_id = google_id,
       entry_id = entry,
       attr_unique_id = DOMAIN @ ''_'' @ entry,
       attr_temperature_unit = CELSIUS,
       attr_supported_features = [TARGET_TEMPERATURE, FAN_MODE],
       remove_listeners = [] \<rparr>"

subsection \<open>Read accessors\<close>

definition current_temperature :: "NestMattersClimate \<Rightarrow> HomeAssistant \<Rightarrow> pyval" where
  "current_temperature self hass =
     (case states hass (matter_entity_id self) of
        None \<Rightarrow> PNone
      | Some matter_state \<Rightarrow>
          if attributes matter_state \<noteq> []
          then dict_get (attributes matter_state) ''current_temperature'' PNone
          else PNone)"

definition target_temperature :: "NestMattersClimate \<Rightarrow> HomeAssistant \<Rightarrow> pyval" where
  "target_temperature self hass =
     (case states hass (matter_entity_id self) of
        None \<Rightarrow> PNone
      | Some matter_state \<Rightarrow>
          if attributes matter_state \<noteq> []
          then dict_get (attributes matter_state) ''temperature'' PNone
          else PNone)"

definition hvac_mode :: "NestMattersClimate \<Rightarrow> HomeAssistant \<Rightarrow> pyval" where
  "hvac_mode self hass =
     (case states hass (google_entity_id self) of
        None \<Rightarrow> PNone
      | Some google_state \<Rightarrow> PStr (state google_state))"

definition hvac_modes :: "NestMattersClimate \<Rightarrow> HomeAssistant \<Rightarrow> pyval" where
  "hvac_modes self hass =
     (case states hass (google_entity_id self) of
        None \<Rightarrow> PList []
      | Some google_state \<Rightarrow>
          if attributes google_state \<noteq> []
          then dict_get (attributes google_state) ''hvac_modes'' (PList [])
          else PList [])"

definition fan_mode :: "NestMattersClimate \<Rightarrow> HomeAssistant \<Rightarrow> pyval" where
  "fan_mode self hass =
     (case states hass (google_entity_id self) of
        None \<Rightarrow> PNone
      | Some google_state \<Rightarrow>
          if attributes google_state \<noteq> []
          then dict_get (attributes google_state) ''fan_mode'' PNone
          else PNone)"

definition fan_modes :: "NestMattersClimate \<Rightarrow> HomeAssistant \<Rightarrow> pyval" where
  "fan_modes self hass =
     (case states hass (google_entity_id self) of
        None \<Rightarrow> PList []
      | Some google_state \<Rightarrow>
          if attributes google_state \<noteq> []
          then dict_get (attributes google_state) ''fan_modes'' (PList [])
          else PList [])"

definition current_humidity :: "NestMattersClimate \<Rightarrow> HomeAssistant \<Rightarrow> pyval" where
  "current_humidity self hass =
     (case states hass (google_entity_id self) of
        None \<Rightarrow> PNone
      | Some google_state \<Rightarrow>
          if attributes google_state \<noteq> []
          then dict_get (attributes google_state) ''current_humidity'' PNone
          else PNone)"

definition min_temp :: "NestMattersClimate \<Rightarrow> HomeAssistant \<Rightarrow> pyval" where
  "min_temp self hass =
     (case states hass (matter_entity_id self) of
        None \<Rightarrow> PInt 7
      | Some matter_state \<Rightarrow>
          if attributes matter_state \<noteq> []
          then dict_get (attributes matter_state) ''min_temp'' (PInt 7)
          else PInt 7)"

definition max_temp :: "NestMattersClimate \<Rightarrow> HomeAssistant \<Rightarrow> pyval" where
  "max_temp self hass =
     (case states hass (matter_entity_id self) of
        None \<Rightarrow> PInt 35
      | Some matter_state \<Rightarrow>
          if attributes matter_state \<noteq> []
          then dict_get (attributes matter_state) ''max_temp'' (PInt 35)
          else PInt 35)"

text \<open>
  \<^verbatim>\<open>available\<close>: a chain of \<^verbatim>\<open>and\<close> over four tests, evaluated left to right;
  a source's \<^verbatim>\<open>state\<close> is read only once the record is known to be present.
\<close>

definition available :: "NestMattersClimate \<Rightarrow> HomeAssistant \<Rightarrow> bool" where
  "available self hass =
     (let matter_state = states hass (matter_entity_id self);
          google_state = states hass (google_entity_id self)
      in case matter_state of
           None \<Rightarrow> False
         | Some ms \<Rightarrow>
             state ms \<noteq> ''unavailable'' \<and>
             (case google_state of
                None \<Rightarrow> False
              | Some gs \<Rightarrow> state gs \<noteq> ''unavailable''))"

subsection \<open>The host's operations\<close>

text \<open>
  Modelled from the spec: the host's logger, service dispatcher, event bus and state
  writer are not part of this repository. The spec describes them as
  \<^verbatim>\<open>callService(domain, service, data)\<close>, fire-and-forget from the proxy's
  perspective, \<^verbatim>\<open>subscribe-to-state-change(entityIds, handler)\<close>, which fires the
  handler on any state transition of either id and returns an unsubscribe handle, and
  the re-publish of the proxy's state.
\<close>

definition logger_debug :: "string \<Rightarrow> pyval list \<Rightarrow> HomeAssistant \<Rightarrow> HomeAssistant" where
  "logger_debug msg args hass = hass\<lparr>debug_log := debug_log hass @ [(msg, args)]\<rparr>"

text \<open>
  Modelled from the spec: \<^verbatim>\<open>hass.services.async_call\<close>. The call is issued (recorded
  in \<open>calls\<close>); the dispatcher then returns or raises, as \<open>service_error\<close> says.
\<close>

definition async_call ::
  "string \<Rightarrow> string \<Rightarrow> pydict \<Rightarrow> HomeAssistant \<Rightarrow> outcome \<times> HomeAssistant" where
  "async_call dmn srv dat hass =
     (let c = \<lparr>domain = dmn, service = srv, service_data = dat\<rparr>
      in (case service_error hass c of None \<Rightarrow> Returned | Some e \<Rightarrow> Raised e,
          hass\<lparr>calls := calls hass @ [c]\<rparr>))"

text \<open>
  Modelled from the spec: \<^verbatim>\<open>async_write_ha_state\<close> of the host's entity base class,
  the re-publish of an entity's state. The log \<open>written\<close> records whose state was
  re-published.
\<close>

definition async_write_ha_state :: "NestMattersClimate \<Rightarrow> HomeAssistant \<Rightarrow> HomeAssistant" where
  "async_write_ha_state self hass = hass\<lparr>written := written hass @ [attr_unique_id self]\<rparr>"

text \<open>
  Modelled from the spec: \<^verbatim>\<open>async_track_state_change_event\<close>. It registers one
  listener for the given entity ids under a fresh handle and returns the remover,
  identified by that handle.
\<close>

definition async_track_state_change_event ::
  "HomeAssistant \<Rightarrow> string list \<Rightarrow> callback \<Rightarrow> nat \<times> HomeAssistant" where
  "async_track_state_change_event hass ids act =
     (next_handle hass,
      hass\<lparr>listeners := listeners hass @
                [\<lparr>handle = next_handle hass, entity_ids = ids, action = act\<rparr>],
           next_handle := Suc (next_handle hass)\<rparr>)"

text \<open>
  Modelled from the spec: calling a remover. While its listener is registered, the
  remover unsubscribes it. What it does afterwards is not specified; the host's
  \<open>stale_error\<close> decides whether a repeated call is a no-op or raises.
\<close>

definition call_remover :: "nat \<Rightarrow> HomeAssistant \<Rightarrow> outcome \<times> HomeAssistant" where
  "call_remover h hass =
     (if h \<in> set (map handle (listeners hass))
      then (Returned, hass\<lparr>listeners := filter (\<lambda>l. handle l \<noteq> h) (listeners hass)\<rparr>)
      else (case stale_error hass h of
              None \<Rightarrow> (Returned, hass)
            | Some e \<Rightarrow> (Raised e, hass)))"

subsection \<open>Lifecycle\<close>

definition async_update :: "NestMattersClimate \<Rightarrow> HomeAssistant \<Rightarrow> HomeAssistant" where
  "async_update self hass = hass"

definition handle_source_state_change ::
  "NestMattersClimate \<Rightarrow> event \<Rightarrow> HomeAssistant \<Rightarrow> HomeAssistant" where
  "handle_source_state_change self ev hass = async_write_ha_state self hass"

definition async_added_to_hass ::
  "NestMattersClimate \<Rightarrow> HomeAssistant \<Rightarrow> NestMattersClimate \<times> HomeAssistant" where
  "async_added_to_hass self hass =
     (let (remover, hass1) =
            async_track_state_change_event hass
              [matter_entity_id self, google_entity_id self]
              (HandleSourceStateChange self);
          self1 = self\<lparr>remove_listeners := remove_listeners self @ [remover]\<rparr>
      in (self1, async_update self1 hass1))"

text \<open>
  The loop of \<^verbatim>\<open>async_will_remove_from_hass\<close> over \<^verbatim>\<open>self._remove_listeners\<close>:
  an exception of one remover ends the loop and leaves the later removers uncalled.
  No field of the proxy is assigned; the list is read, not cleared.
\<close>

fun call_removers :: "nat list \<Rightarrow> HomeAssistant \<Rightarrow> outcome \<times> HomeAssistant" where
  "call_removers [] hass = (Returned, hass)"
| "call_removers (remove_listener # rest) hass =
     (case call_remover remove_listener hass of
        (Returned, hass1) \<Rightarrow> call_removers rest hass1
      | (Raised e, hass1) \<Rightarrow> (Raised e, hass1))"

definition async_will_remove_from_hass ::
  "NestMattersClimate \<Rightarrow> HomeAssistant \<Rightarrow> outcome \<times> HomeAssistant" where
  "async_will_remove_from_hass self hass = call_removers (remove_listeners self) hass"

text \<open>
  Modelled from the spec: the event bus delivering one state-change notification. Every
  registered listener whose entity ids contain the event's entity id has its callback
  run once, in registration order.
\<close>

fun run_callback :: "callback \<Rightarrow> event \<Rightarrow> HomeAssistant \<Rightarrow> HomeAssistant" where
  "run_callback (HandleSourceStateChange self) ev hass = handle_source_state_change self ev hass"

fun notify :: "event \<Rightarrow> listener list \<Rightarrow> HomeAssistant \<Rightarrow> HomeAssistant" where
  "notify ev [] hass = hass"
| "notify ev (l # ls) hass =
     notify ev ls
       (if entity_id ev \<in> set (entity_ids l) then run_callback (action l) ev hass else hass)"

definition async_fire_state_changed :: "event \<Rightarrow> HomeAssistant \<Rightarrow> HomeAssistant" where
  "async_fire_state_changed ev hass = notify ev (listeners hass) hass"

text \<open>The proxy a callback is bound to, and the number of times a proxy was re-published.\<close>

fun bound_to :: "callback \<Rightarrow> string" where
  "bound_to (HandleSourceStateChange self) = attr_unique_id self"

definition republished :: "NestMattersClimate \<Rightarrow> HomeAssistant \<Rightarrow> nat" where
  "republished self hass = count_list (written hass) (attr_unique_id self)"

subsection \<open>Command forwarding\<close>

definition async_set_temperature ::
  "NestMattersClimate \<Rightarrow> pydict \<Rightarrow> HomeAssistant \<Rightarrow> outcome \<times> HomeAssistant" where
  "async_set_temperature self kwargs hass =
     (let temperature = dict_get kwargs ATTR_TEMPERATURE PNone
      in if temperature = PNone then (Returned, hass)
         else
           let hass1 = logger_debug ''Setting temperature to %s via Matter entity %s''
                         [temperature, PStr (matter_entity_id self)] hass
           in async_call ''climate'' ''set_temperature''
                [(''entity_id'', PStr (matter_entity_id self)),
                 (''temperature'', temperature)]
                hass1)"

definition async_set_hvac_mode ::
  "NestMattersClimate \<Rightarrow> pyval \<Rightarrow> HomeAssistant \<Rightarrow> outcome \<times> HomeAssistant" where
  "async_set_hvac_mode self mode hass =
     (let hass1 = logger_debug ''Setting HVAC mode to %s via Google entity %s''
                    [mode, PStr (google_entity_id self)] hass
      in async_call ''climate'' ''set_hvac_mode''
           [(''entity_id'', PStr (google_entity_id self)),
            (''hvac_mode'', mode)]
           hass1)"

definition async_set_fan_mode ::
  "NestMattersClimate \<Rightarrow> pyval \<Rightarrow> HomeAssistant \<Rightarrow> outcome \<times> HomeAssistant" where
  "async_set_fan_mode self mode hass =
     (let hass1 = logger_debug ''Setting fan mode to %s via Google entity %s''
                    [mode, PStr (google_entity_id self)] hass
      in async_call ''climate'' ''set_fan_mode''
           [(''entity_id'', PStr (google_entity_id self)),
            (''fan_mode'', mode)]
           hass1)"

subsection \<open>Example registry\<close>

text \<open>
  The scenario of the spec: a primary source \<^verbatim>\<open>climate.matter\<close> and a secondary
  source \<^verbatim>\<open>climate.google\<close>, both reporting "heat", on a host with no listener,
  whose dispatcher accepts every call and whose removers raise \<^verbatim>\<open>ValueError\<close>
  once their listener is gone (as a remover built on \<^verbatim>\<open>list.remove\<close> does).
\<close>

definition matter_heat :: State where
  "matter_heat =
     \<lparr> state = ''heat'',
       attributes = [(''current_temperature'', PFloat 19.5), (''temperature'', PInt 21),
                     (''min_temp'', PInt 10), (''max_temp'', PInt 30)] \<rparr>"

definition google_heat :: State where
  "google_heat =
     \<lparr> state = ''heat'',
       attributes = [(''hvac_modes'', PList [PStr ''heat'', PStr ''off'']),
                     (''fan_mode'', PStr ''low''),
                     (''fan_modes'', PList [PStr ''low'', PStr ''high'']),
                     (''current_humidity'', PInt 45)] \<rparr>"

definition hass0 :: HomeAssistant where
  "hass0 =
     \<lparr> states = [''climate.matter'' \<mapsto> matter_heat, ''climate.google'' \<mapsto> google_heat],
       listeners = [],
       next_handle = 0,
       calls = [],
       written = [],
       debug_log = [],
       service_error = (\<lambda>c. None),
       stale_error = (\<lambda>h. Some ValueError) \<rparr>"

definition proxy0 :: NestMattersClimate where
  "proxy0 = init ''Hallway'' ''climate.matter'' ''climate.google'' ''e1''"

text \<open>
  Two lifecycles of the example proxy on the example host: attach and detach, then the
  same proxy object attached and detached once more, as when the host removes an entity
  and adds the same object again.
\<close>

definition cycle1 :: "NestMattersClimate \<times> HomeAssistant" where
  "cycle1 = async_added_to_hass proxy0 hass0"

definition detached1 :: "outcome \<times> HomeAssistant" where
  "detached1 = async_will_remove_from_hass (fst cycle1) (snd cycle1)"

definition cycle2 :: "NestMattersClimate \<times> HomeAssistant" where
  "cycle2 = async_added_to_hass (fst cycle1) (snd detached1)"

definition detached2 :: "outcome \<times> HomeAssistant" where
  "detached2 = async_will_remove_from_hass (fst cycle2) (snd cycle2)"

subsection \<open>The table of read accessors, as the spec words it\<close>

text \<open>
  The spec's table gives each accessor a source, an attribute key and a fallback that
  applies when the source record or the attribute is absent. \<open>source_attribute\<close>
  is that reading, written from the spec; the accessors above are written from the code.
\<close>

definition source_attribute :: "HomeAssistant \<Rightarrow> string \<Rightarrow> string \<Rightarrow> pyval \<Rightarrow> pyval" where
  "source_attribute hass source key fallback =
     (case states hass source of
        None \<Rightarrow> fallback
      | Some s \<Rightarrow> (case map_of (attributes s) key of None \<Rightarrow> fallback | Some v \<Rightarrow> v))"

section \<open>Removers and notifications\<close>

text \<open>
  A remover that returns leaves the host with its listener filtered out, whether the
  listener was still registered or not. Hence a run of the detach loop that returns has
  removed every recorded listener and touched nothing else.
\<close>

lemma call_remover_Returned:
  "call_remover h hass = (Returned, hass1) \<Longrightarrow>
     hass1 = hass\<lparr>listeners := filter (\<lambda>l. handle l \<noteq> h) (listeners hass)\<rparr>"
proof (cases "h \<in> set (map handle (listeners hass))")
  case True
  then show ?thesis if "call_remover h hass = (Returned, hass1)"
    using that by (simp add: call_remover_def)
next
  case False
  then have "filter (\<lambda>l. handle l \<noteq> h) (listeners hass) = listeners hass"
    by (auto simp: filter_id_conv)
  moreover have "hass1 = hass" if "call_remover h hass = (Returned, hass1)"
    using that False by (auto simp: call_remover_def split: option.splits)
  ultimately show ?thesis if "call_remover h hass = (Returned, hass1)"
    using that by simp
qed

lemma call_removers_Returned:
  "call_removers hs hass = (Returned, hass1) \<Longrightarrow>
     hass1 = hass\<lparr>listeners := filter (\<lambda>l. handle l \<notin> set hs) (listeners hass)\<rparr>"
proof (induction hs arbitrary: hass)
  case Nil
  then show ?case by simp
next
  case (Cons h hs)
  obtain r hass2 where step: "call_remover h hass = (r, hass2)"
    by (cases "call_remover h hass")
  with Cons.prems have r: "r = Returned" and rest: "call_removers hs hass2 = (Returned, hass1)"
    by (cases r; simp)+
  from step r have h2: "hass2 = hass\<lparr>listeners := filter (\<lambda>l. handle l \<noteq> h) (listeners hass)\<rparr>"
    by (simp add: call_remover_Returned)
  from Cons.IH [OF rest] h2 show ?case
    by (simp add: conj_commute)
qed

lemma call_removers_registered:
  "distinct hs \<Longrightarrow> set hs \<subseteq> set (map handle (listeners hass)) \<Longrightarrow>
     call_removers hs hass =
       (Returned, hass\<lparr>listeners := filter (\<lambda>l. handle l \<notin> set hs) (listeners hass)\<rparr>)"
proof (induction hs arbitrary: hass)
  case Nil
  then show ?case by simp
next
  case (Cons h hs)
  let ?hass2 = "hass\<lparr>listeners := filter (\<lambda>l. handle l \<noteq> h) (listeners hass)\<rparr>"
  from Cons.prems have step: "call_remover h hass = (Returned, ?hass2)"
    by (simp add: call_remover_def)
  from Cons.prems have d: "distinct hs" and "h \<notin> set hs"
    and "set hs \<subseteq> handle ` set (listeners hass)"
    by auto
  then have "set hs \<subseteq> set (map handle (listeners ?hass2))"
    by (auto simp: image_iff)
  note d this
  from Cons.IH [OF this] step show ?case
    by (simp add: conj_commute)
qed

lemma call_removers_stale:
  "set hs \<inter> set (map handle (listeners hass)) = {} \<Longrightarrow>
     call_removers hs hass =
       (case List.map_filter (stale_error hass) hs of [] \<Rightarrow> Returned | e # _ \<Rightarrow> Raised e, hass)"
proof (induction hs)
  case Nil
  then show ?case by (simp add: List.map_filter_simps)
next
  case (Cons h hs)
  then show ?case
    by (cases "stale_error hass h") (auto simp: call_remover_def List.map_filter_simps)
qed

lemma notify_written:
  "notify ev ls hass =
     hass\<lparr>written := written hass @
        map (\<lambda>l. bound_to (action l)) (filter (\<lambda>l. entity_id ev \<in> set (entity_ids l)) ls)\<rparr>"
proof (induction ls arbitrary: hass)
  case Nil
  then show ?case by simp
next
  case (Cons l ls)
  show ?case
  proof (cases "action l")
    case (HandleSourceStateChange p)
    then show ?thesis
      by (simp add: Cons.IH handle_source_state_change_def async_write_ha_state_def)
  qed
qed

lemma call_removers_append:
  "call_removers (xs @ ys) hass =
     (case call_removers xs hass of
        (Returned, hass1) \<Rightarrow> call_removers ys hass1
      | (Raised e, hass1) \<Rightarrow> (Raised e, hass1))"
  by (induction xs arbitrary: hass) (auto split: prod.splits outcome.splits)

lemma call_removers_Raised:
  "call_removers hs hass = (Raised e, hass1) \<Longrightarrow>
     \<exists>xs h ys. hs = xs @ h # ys \<and> call_removers xs hass = (Returned, hass1)
       \<and> h \<notin> set (map handle (listeners hass1)) \<and> stale_error hass1 h = Some e"
proof (induction hs arbitrary: hass)
  case Nil
  then show ?case by simp
next
  case (Cons h hs)
  obtain r hass2 where step: "call_remover h hass = (r, hass2)"
    by (cases "call_remover h hass")
  show ?case
  proof (cases r)
    case Returned
    with step Cons.prems have "call_removers hs hass2 = (Raised e, hass1)" by simp
    from Cons.IH [OF this] obtain xs h' ys where
      "hs = xs @ h' # ys" "call_removers xs hass2 = (Returned, hass1)"
      "h' \<notin> set (map handle (listeners hass1))" "stale_error hass1 h' = Some e"
      by blast
    with step Returned have "h # hs = (h # xs) @ h' # ys
        \<and> call_removers (h # xs) hass = (Returned, hass1)
        \<and> h' \<notin> set (map handle (listeners hass1)) \<and> stale_error hass1 h' = Some e"
      by simp
    then show ?thesis by blast
  next
    case (Raised e')
    with step Cons.prems have "hass1 = hass2" "e' = e" by simp_all
    with step Raised have "h # hs = [] @ h # hs \<and> call_removers [] hass = (Returned, hass1)
        \<and> h \<notin> set (map handle (listeners hass1)) \<and> stale_error hass1 h = Some e"
      by (auto simp: call_remover_def split: if_splits option.splits)
    then show ?thesis by blast
  qed
qed

lemma call_removers_twice:
  "snd (call_removers hs (snd (call_removers hs hass))) = snd (call_removers hs hass)"
proof -
  obtain r hass1 where run: "call_removers hs hass = (r, hass1)"
    by (cases "call_removers hs hass")
  have "snd (call_removers hs hass1) = hass1"
  proof (cases r)
    case Returned
    with run have "hass1 = hass\<lparr>listeners := filter (\<lambda>l. handle l \<notin> set hs) (listeners hass)\<rparr>"
      by (simp add: call_removers_Returned)
    then have "set hs \<inter> set (map handle (listeners hass1)) = {}"
      by auto
    then show ?thesis by (simp add: call_removers_stale)
  next
    case (Raised e)
    with run obtain xs h ys where split: "hs = xs @ h # ys"
      and pre: "call_removers xs hass = (Returned, hass1)"
      and stale: "h \<notin> set (map handle (listeners hass1))" "stale_error hass1 h = Some e"
      using call_removers_Raised by blast
    from pre have "hass1 = hass\<lparr>listeners := filter (\<lambda>l. handle l \<notin> set xs) (listeners hass)\<rparr>"
      by (simp add: call_removers_Returned)
    then have "set xs \<inter> set (map handle (listeners hass1)) = {}"
      by auto
    then have again: "snd (call_removers xs hass1) = hass1"
      by (simp add: call_removers_stale)
    from stale have "call_removers (h # ys) hass1 = (Raised e, hass1)"
      by (simp add: call_remover_def)
    with again show ?thesis
      unfolding split call_removers_append
      by (cases "call_removers xs hass1") (auto split: outcome.splits)
  qed
  with run show ?thesis by simp
qed

text \<open>
  What a further detach returns is the host's matter: every recorded remover is called
  for a listener that is gone, and the first error the host raises for such a call, if
  any, ends the loop.
\<close>

lemma detach_again_outcome:
  "async_will_remove_from_hass self hass = (Returned, hass1) \<Longrightarrow>
     async_will_remove_from_hass self hass1 =
       (case List.map_filter (stale_error hass) (remove_listeners self) of
          [] \<Rightarrow> Returned
        | e # _ \<Rightarrow> Raised e,
        hass1)"
proof -
  assume "async_will_remove_from_hass self hass = (Returned, hass1)"
  then have h1: "hass1 =
      hass\<lparr>listeners := filter (\<lambda>l. handle l \<notin> set (remove_listeners self)) (listeners hass)\<rparr>"
    by (simp add: async_will_remove_from_hass_def call_removers_Returned)
  then have "set (remove_listeners self) \<inter> set (map handle (listeners hass1)) = {}"
    by auto
  then have "call_removers (remove_listeners self) hass1 =
      (case List.map_filter (stale_error hass1) (remove_listeners self) of
          [] \<Rightarrow> Returned
        | e # _ \<Rightarrow> Raised e,
        hass1)"
    by (rule call_removers_stale)
  with h1 show ?thesis
    by (simp add: async_will_remove_from_hass_def)
qed

subsection \<open>The example proxy on the example host\<close>

lemma hass0_fields:
  "listeners hass0 = []" "written hass0 = []" "calls hass0 = []" "next_handle hass0 = 0"
  by (simp_all add: hass0_def)

lemma proxy0_fields:
  "matter_entity_id proxy0 = ''climate.matter''" "google_entity_id proxy0 = ''climate.google''"
  "remove_listeners proxy0 = []"
  by (simp_all add: proxy0_def init_def)

lemma detach_proxy0:
  "async_will_remove_from_hass (proxy0\<lparr>remove_listeners := [0]\<rparr>)
     (hass0\<lparr>listeners := [\<lparr>handle = 0, entity_ids = [''climate.matter'', ''climate.google''],
                            action = HandleSourceStateChange proxy0\<rparr>],
            next_handle := Suc 0\<rparr>) =
   (Returned, hass0\<lparr>listeners := [], next_handle := Suc 0\<rparr>)"
  by (simp add: async_will_remove_from_hass_def call_remover_def)

lemma attach_proxy0:
  "async_added_to_hass proxy0 hass0 =
     (proxy0\<lparr>remove_listeners := [0]\<rparr>,
      hass0\<lparr>listeners := [\<lparr>handle = 0, entity_ids = [''climate.matter'', ''climate.google''],
                            action = HandleSourceStateChange proxy0\<rparr>],
            next_handle := Suc 0\<rparr>)"
  by (simp add: async_added_to_hass_def async_track_state_change_event_def async_update_def
      proxy0_def init_def hass0_def)

lemma hass0_stale:
  "stale_error hass0 h = Some ValueError"
  by (simp add: hass0_def)

lemma cycle1_eq:
  "cycle1 =
     (proxy0\<lparr>remove_listeners := [0]\<rparr>,
      hass0\<lparr>listeners := [\<lparr>handle = 0, entity_ids = [''climate.matter'', ''climate.google''],
                            action = HandleSourceStateChange proxy0\<rparr>],
            next_handle := Suc 0\<rparr>)"
  by (simp add: cycle1_def attach_proxy0)

lemma detached1_eq:
  "detached1 = (Returned, hass0\<lparr>listeners := [], next_handle := Suc 0\<rparr>)"
  by (simp add: detached1_def cycle1_eq detach_proxy0)

lemma detach_again_proxy0:
  "async_will_remove_from_hass (fst cycle1) (snd detached1) = (Raised ValueError, snd detached1)"
  by (simp add: cycle1_eq detached1_eq async_will_remove_from_hass_def call_remover_def
      hass0_stale)

lemma cycle2_eq:
  "cycle2 =
     (proxy0\<lparr>remove_listeners := [0, Suc 0]\<rparr>,
      hass0\<lparr>listeners := [\<lparr>handle = Suc 0,
                             entity_ids = [''climate.matter'', ''climate.google''],
                             action = HandleSourceStateChange (proxy0\<lparr>remove_listeners := [0]\<rparr>)\<rparr>],
            next_handle := Suc (Suc 0)\<rparr>)"
  by (simp add: cycle2_def cycle1_eq detached1_eq async_added_to_hass_def
      async_track_state_change_event_def async_update_def proxy0_fields)

lemma detached2_eq:
  "detached2 = (Raised ValueError, snd cycle2)"
  by (simp add: detached2_def cycle2_eq async_will_remove_from_hass_def call_remover_def
      hass0_stale)

section \<open>Availability\<close>

text \<open>
  C1. \<open>available\<close> is true if and only if both source records exist in the registry
  and neither raw state is the string "unavailable". In particular it is false whenever
  the primary record is absent or reports "unavailable", whatever the secondary is, and
  true whenever both records are present and neither reports "unavailable".
\<close>

theorem available_iff:
  "(available self hass \<longleftrightarrow>
      (\<exists>ms gs. states hass (matter_entity_id self) = Some ms \<and>
               states hass (google_entity_id self) = Some gs \<and>
               state ms \<noteq> ''unavailable'' \<and> state gs \<noteq> ''unavailable''))
   \<and> (states hass (matter_entity_id self) = None \<longrightarrow> \<not> available self hass)
   \<and> (\<forall>ms. states hass (matter_entity_id self) = Some ms \<and> state ms = ''unavailable''
          \<longrightarrow> \<not> available self hass)
   \<and> (\<forall>ms gs. states hass (matter_entity_id self) = Some ms \<and>
              states hass (google_entity_id self) = Some gs \<and>
              state ms \<noteq> ''unavailable'' \<and> state gs \<noteq> ''unavailable''
          \<longrightarrow> available self hass)"
  by (auto simp: available_def Let_def split: option.splits)

theorem available_iff_witness:
  "available proxy0 hass0 \<and>
   \<not> available proxy0 (hass0\<lparr>states := (states hass0)(''climate.matter'' := None)\<rparr>)"
proof -
  have "states hass0 (matter_entity_id proxy0) = Some matter_heat
      \<and> states hass0 (google_entity_id proxy0) = Some google_heat
      \<and> state matter_heat \<noteq> ''unavailable'' \<and> state google_heat \<noteq> ''unavailable''"
    by (simp add: hass0_def proxy0_def init_def matter_heat_def google_heat_def)
  moreover have "states (hass0\<lparr>states := (states hass0)(''climate.matter'' := None)\<rparr>)
      (matter_entity_id proxy0) = None"
    by (simp add: proxy0_def init_def)
  ultimately show ?thesis
    using available_iff [of proxy0 hass0]
      available_iff [of proxy0 "hass0\<lparr>states := (states hass0)(''climate.matter'' := None)\<rparr>"]
    by blast
qed

section \<open>Read accessors\<close>

text \<open>
  C2. Each read accessor returns the attribute of its source that the spec's table
  names, and the table's fallback when the source record or the attribute is absent;
  \<open>hvac_mode\<close> returns the secondary's raw state, and \<open>None\<close> when the record
  is absent.
\<close>

theorem read_accessors_table:
  "current_temperature self hass =
     source_attribute hass (matter_entity_id self) ''current_temperature'' PNone
   \<and> target_temperature self hass =
     source_attribute hass (matter_entity_id self) ''temperature'' PNone
   \<and> hvac_mode self hass =
     (case states hass (google_entity_id self) of None \<Rightarrow> PNone | Some s \<Rightarrow> PStr (state s))
   \<and> hvac_modes self hass =
     source_attribute hass (google_entity_id self) ''hvac_modes'' (PList [])
   \<and> fan_mode self hass =
     source_attribute hass (google_entity_id self) ''fan_mode'' PNone
   \<and> fan_modes self hass =
     source_attribute hass (google_entity_id self) ''fan_modes'' (PList [])
   \<and> current_humidity self hass =
     source_attribute hass (google_entity_id self) ''current_humidity'' PNone"
  by (simp add: current_temperature_def target_temperature_def hvac_mode_def hvac_modes_def
      fan_mode_def fan_modes_def current_humidity_def source_attribute_def dict_get_def
      split: option.splits)

theorem read_accessors_table_witness:
  "current_temperature proxy0 hass0 = PFloat 19.5
   \<and> target_temperature proxy0 hass0 = PInt 21
   \<and> hvac_mode proxy0 hass0 = PStr ''heat''
   \<and> hvac_modes proxy0 hass0 = PList [PStr ''heat'', PStr ''off'']
   \<and> fan_mode proxy0 hass0 = PStr ''low''
   \<and> fan_modes proxy0 hass0 = PList [PStr ''low'', PStr ''high'']
   \<and> current_humidity proxy0 hass0 = PInt 45
   \<and> current_humidity proxy0 (hass0\<lparr>states := Map.empty\<rparr>) = PNone
   \<and> fan_modes proxy0 (hass0\<lparr>states := Map.empty\<rparr>) = PList []"
  using read_accessors_table [of proxy0 hass0]
    read_accessors_table [of proxy0 "hass0\<lparr>states := Map.empty\<rparr>"]
  by (simp add: source_attribute_def hass0_def proxy0_def init_def matter_heat_def
      google_heat_def)

section \<open>Command forwarding\<close>

text \<open>
  C3. \<open>async_set_temperature\<close> without a temperature (the key missing, or bound to
  \<open>None\<close>) is a no-op: the host is left as it was and no service call is issued.
  With a temperature it issues exactly one call, \<^verbatim>\<open>climate.set_temperature\<close>,
  addressed to the primary source and carrying that value.
\<close>

theorem set_temperature_forwarding:
  "(dict_get kwargs ATTR_TEMPERATURE PNone = PNone \<longrightarrow>
      async_set_temperature self kwargs hass = (Returned, hass))
   \<and> (\<forall>v. dict_get kwargs ATTR_TEMPERATURE PNone = v \<and> v \<noteq> PNone \<longrightarrow>
      calls (snd (async_set_temperature self kwargs hass)) =
        calls hass @
          [\<lparr>domain = ''climate'', service = ''set_temperature'',
            service_data = [(''entity_id'', PStr (matter_entity_id self)),
                            (''temperature'', v)]\<rparr>])"
  by (simp add: async_set_temperature_def async_call_def logger_debug_def Let_def)

theorem set_temperature_forwarding_witness:
  "async_set_temperature proxy0 [] hass0 = (Returned, hass0)
   \<and> async_set_temperature proxy0 [(''temperature'', PNone)] hass0 = (Returned, hass0)
   \<and> calls (snd (async_set_temperature proxy0 [(''temperature'', PFloat 21.5)] hass0)) =
        [\<lparr>domain = ''climate'', service = ''set_temperature'',
          service_data = [(''entity_id'', PStr ''climate.matter''),
                          (''temperature'', PFloat 21.5)]\<rparr>]"
proof -
  have a: "dict_get [] ATTR_TEMPERATURE PNone = PNone"
    and b: "dict_get [(''temperature'', PNone)] ATTR_TEMPERATURE PNone = PNone"
    and c: "dict_get [(''temperature'', PFloat 21.5)] ATTR_TEMPERATURE PNone = PFloat 21.5
        \<and> PFloat 21.5 \<noteq> PNone"
    by (simp_all add: dict_get_def ATTR_TEMPERATURE_def)
  have d: "calls hass0 = []" "matter_entity_id proxy0 = ''climate.matter''"
    by (simp_all add: hass0_def proxy0_def init_def)
  from a b c d show ?thesis
    using set_temperature_forwarding [of "[]" proxy0 hass0]
      set_temperature_forwarding [of "[(''temperature'', PNone)]" proxy0 hass0]
      set_temperature_forwarding [of "[(''temperature'', PFloat 21.5)]" proxy0 hass0]
    by simp
qed

section \<open>Lifecycle\<close>

subsection \<open>Detach while every recorded listener is registered\<close>

text \<open>
  On a proxy that was never attached detach calls no remover and returns. After the
  first attach of a proxy it returns and unsubscribes the listener created at attach
  time; so it does whenever the recorded listeners are distinct and all registered.
  A further detach changes no subscription, and detach assigns no field of the proxy.
\<close>

lemma detach_registered:
  "async_will_remove_from_hass (init name m g e) hass = (Returned, hass)
   \<and> (\<forall>self1 hass1. async_added_to_hass (init name m g e) hass = (self1, hass1) \<longrightarrow>
        async_will_remove_from_hass self1 hass1 =
          (Returned,
           hass1\<lparr>listeners := filter (\<lambda>l. handle l \<noteq> next_handle hass) (listeners hass1)\<rparr>))
   \<and> (distinct (remove_listeners self) \<and>
       set (remove_listeners self) \<subseteq> set (map handle (listeners hass)) \<longrightarrow>
        async_will_remove_from_hass self hass =
          (Returned,
           hass\<lparr>listeners :=
                   filter (\<lambda>l. handle l \<notin> set (remove_listeners self)) (listeners hass)\<rparr>))
   \<and> snd (async_will_remove_from_hass self (snd (async_will_remove_from_hass self hass))) =
       snd (async_will_remove_from_hass self hass)"
proof -
  have never: "async_will_remove_from_hass (init name m g e) hass = (Returned, hass)"
    by (simp add: async_will_remove_from_hass_def init_def)
  have fresh: "async_will_remove_from_hass self1 hass1 =
          (Returned,
           hass1\<lparr>listeners := filter (\<lambda>l. handle l \<noteq> next_handle hass) (listeners hass1)\<rparr>)"
    if "async_added_to_hass (init name m g e) hass = (self1, hass1)" for self1 hass1
  proof -
    from that have "remove_listeners self1 = [next_handle hass]"
      and "next_handle hass \<in> set (map handle (listeners hass1))"
      by (auto simp: async_added_to_hass_def async_track_state_change_event_def
          async_update_def init_def)
    then show ?thesis
      by (simp add: async_will_remove_from_hass_def call_remover_def)
  qed
  have registered: "async_will_remove_from_hass self hass =
          (Returned,
           hass\<lparr>listeners :=
                   filter (\<lambda>l. handle l \<notin> set (remove_listeners self)) (listeners hass)\<rparr>)"
    if "distinct (remove_listeners self) \<and>
       set (remove_listeners self) \<subseteq> set (map handle (listeners hass))"
    using that by (simp add: async_will_remove_from_hass_def call_removers_registered)
  have twice: "snd (async_will_remove_from_hass self (snd (async_will_remove_from_hass self hass))) =
       snd (async_will_remove_from_hass self hass)"
    by (simp add: async_will_remove_from_hass_def call_removers_twice)
  from never fresh registered twice show ?thesis by blast
qed

lemma detach_registered_example:
  "async_will_remove_from_hass proxy0 hass0 = (Returned, hass0)
   \<and> async_will_remove_from_hass (fst (async_added_to_hass proxy0 hass0))
        (snd (async_added_to_hass proxy0 hass0)) =
      (Returned, hass0\<lparr>listeners := [], next_handle := Suc 0\<rparr>)
   \<and> snd (async_will_remove_from_hass (fst (async_added_to_hass proxy0 hass0))
        (hass0\<lparr>listeners := [], next_handle := Suc 0\<rparr>)) =
      hass0\<lparr>listeners := [], next_handle := Suc 0\<rparr>"
proof -
  let ?p1 = "fst (async_added_to_hass proxy0 hass0)"
  let ?h1 = "snd (async_added_to_hass proxy0 hass0)"
  have hyp: "distinct (remove_listeners ?p1) \<and>
      set (remove_listeners ?p1) \<subseteq> set (map handle (listeners ?h1))"
    by (simp add: attach_proxy0)
  have never: "async_will_remove_from_hass proxy0 hass0 = (Returned, hass0)"
    using detach_registered
      [of "''Hallway''" "''climate.matter''" "''climate.google''" "''e1''" hass0 proxy0]
    by (simp add: proxy0_def)
  have "async_will_remove_from_hass ?p1 ?h1 =
      (Returned,
       ?h1\<lparr>listeners := filter (\<lambda>l. handle l \<notin> set (remove_listeners ?p1)) (listeners ?h1)\<rparr>)
    \<and> snd (async_will_remove_from_hass ?p1 (snd (async_will_remove_from_hass ?p1 ?h1))) =
        snd (async_will_remove_from_hass ?p1 ?h1)"
    using hyp detach_registered
      [of "''Hallway''" "''climate.matter''" "''climate.google''" "''e1''" ?h1 ?p1]
    by blast
  then have "async_will_remove_from_hass ?p1 ?h1 =
      (Returned, hass0\<lparr>listeners := [], next_handle := Suc 0\<rparr>)
    \<and> snd (async_will_remove_from_hass ?p1 (hass0\<lparr>listeners := [], next_handle := Suc 0\<rparr>)) =
        hass0\<lparr>listeners := [], next_handle := Suc 0\<rparr>"
    by (simp add: attach_proxy0 detach_proxy0)
  with never show ?thesis by simp
qed

text \<open>
  Once a detach has returned, none of the proxy's recorded listeners is registered, and
  a state-change notification triggers no re-publish of the proxy's state, provided
  every listener bound to the proxy is one it recorded.
\<close>

lemma returned_detach_no_republish:
  assumes "async_will_remove_from_hass self hass = (Returned, hass1)"
    and "\<forall>l \<in> set (listeners hass).
           bound_to (action l) = attr_unique_id self \<longrightarrow> handle l \<in> set (remove_listeners self)"
  shows "(\<forall>h \<in> set (remove_listeners self). h \<notin> set (map handle (listeners hass1)))
    \<and> republished self (async_fire_state_changed ev hass1) = republished self hass1"
proof -
  from assms(1) have h1: "hass1 =
      hass\<lparr>listeners := filter (\<lambda>l. handle l \<notin> set (remove_listeners self)) (listeners hass)\<rparr>"
    by (simp add: async_will_remove_from_hass_def call_removers_Returned)
  then have gone: "\<forall>h \<in> set (remove_listeners self). h \<notin> set (map handle (listeners hass1))"
    by auto
  from h1 assms(2) have "\<forall>l \<in> set (listeners hass1). bound_to (action l) \<noteq> attr_unique_id self"
    by auto
  then have "count_list
      (map (\<lambda>l. bound_to (action l))
         (filter (\<lambda>l. entity_id ev \<in> set (entity_ids l)) (listeners hass1)))
      (attr_unique_id self) = 0"
    by (auto simp: count_list_0_iff)
  then have "republished self (async_fire_state_changed ev hass1) = republished self hass1"
    by (simp add: republished_def async_fire_state_changed_def notify_written)
  with gone show ?thesis by simp
qed

lemma returned_detach_example:
  "republished proxy0
     (async_fire_state_changed
        \<lparr>entity_id = ''climate.matter'', old_state = None, new_state = None\<rparr>
        (snd (async_will_remove_from_hass (fst (async_added_to_hass proxy0 hass0))
                (snd (async_added_to_hass proxy0 hass0))))) = 0"
proof -
  let ?p1 = "fst (async_added_to_hass proxy0 hass0)"
  let ?h1 = "snd (async_added_to_hass proxy0 hass0)"
  let ?h2 = "hass0\<lparr>listeners := [], next_handle := Suc 0\<rparr>"
  let ?ev = "\<lparr>entity_id = ''climate.matter'', old_state = None, new_state = None\<rparr>"
  have det: "async_will_remove_from_hass ?p1 ?h1 = (Returned, ?h2)"
    by (simp add: attach_proxy0 detach_proxy0)
  have own: "\<forall>l \<in> set (listeners ?h1).
      bound_to (action l) = attr_unique_id ?p1 \<longrightarrow> handle l \<in> set (remove_listeners ?p1)"
    by (simp add: attach_proxy0)
  have zero: "republished ?p1 ?h2 = 0"
    by (simp add: republished_def hass0_fields)
  have same: "republished proxy0 (async_fire_state_changed ?ev ?h2) =
      republished ?p1 (async_fire_state_changed ?ev ?h2)"
    by (simp add: republished_def attach_proxy0)
  from returned_detach_no_republish [OF det own, of ?ev] zero same det
  show ?thesis by simp
qed

subsection \<open>Detach after the removers have been called once\<close>

text \<open>
  C4 requires detach to unsubscribe all listeners created at attach time, to be
  idempotent, and not to throw on a proxy that was never attached. The loop of
  \<open>async_will_remove_from_hass\<close> calls every recorded remover, but
  \<^verbatim>\<open>_remove_listeners\<close> is never cleared. On the example host the first detach
  returns and the never-attached detach returns; a second detach calls the remover of
  handle 0 again and raises. After the proxy is attached once more, detach raises at
  that same remover before it reaches the remover of handle 1, and the listener created
  at the second attach stays registered.
\<close>

theorem detach_again_raises:
  "async_will_remove_from_hass proxy0 hass0 = (Returned, hass0)
   \<and> fst detached1 = Returned
   \<and> map handle (listeners (snd detached1)) = []
   \<and> remove_listeners (fst cycle1) = [0]
   \<and> async_will_remove_from_hass (fst cycle1) (snd detached1) =
       (Raised ValueError, snd detached1)
   \<and> map handle (listeners (snd cycle2)) = [1]
   \<and> remove_listeners (fst cycle2) = [0, 1]
   \<and> fst detached2 = Raised ValueError
   \<and> map handle (listeners (snd detached2)) = [1]"
proof -
  have "async_will_remove_from_hass proxy0 hass0 = (Returned, hass0)"
    by (simp add: async_will_remove_from_hass_def proxy0_fields)
  moreover have "fst detached1 = Returned" "map handle (listeners (snd detached1)) = []"
    by (simp_all add: detached1_eq)
  moreover have "remove_listeners (fst cycle1) = [0]"
    by (simp add: cycle1_eq)
  moreover note detach_again_proxy0
  moreover have "map handle (listeners (snd cycle2)) = [1]"
    "remove_listeners (fst cycle2) = [0, 1]"
    by (simp_all add: cycle2_eq)
  moreover have "fst detached2 = Raised ValueError"
    "map handle (listeners (snd detached2)) = [1]"
    by (simp_all add: detached2_eq cycle2_eq)
  ultimately show ?thesis by simp
qed

text \<open>
  C5 requires that after detach no state change of a source re-publishes the proxy's
  state. In the second lifecycle of the example proxy the detach ends at the stale
  remover of handle 0; the listener of handle 1, bound to the proxy, remains registered,
  and a notification of either source re-publishes the proxy's state once.
\<close>

theorem detach_leaks_listener:
  "fst detached2 = Raised ValueError
   \<and> listeners (snd detached2) =
       [\<lparr>handle = 1, entity_ids = [''climate.matter'', ''climate.google''],
         action = HandleSourceStateChange (fst cycle1)\<rparr>]
   \<and> republished (fst cycle2) (snd detached2) = 0
   \<and> republished (fst cycle2)
        (async_fire_state_changed
           \<lparr>entity_id = ''climate.matter'', old_state = None, new_state = None\<rparr>
           (snd detached2)) = 1
   \<and> republished (fst cycle2)
        (async_fire_state_changed
           \<lparr>entity_id = ''climate.google'', old_state = None, new_state = None\<rparr>
           (snd detached2)) = 1"
proof -
  have out: "fst detached2 = Raised ValueError"
    by (simp add: detached2_eq)
  have ls: "listeners (snd detached2) =
       [\<lparr>handle = 1, entity_ids = [''climate.matter'', ''climate.google''],
         action = HandleSourceStateChange (fst cycle1)\<rparr>]"
    by (simp add: detached2_eq cycle2_eq cycle1_eq)
  have wr: "written (snd detached2) = []"
    by (simp add: detached2_eq cycle2_eq hass0_fields)
  have uid: "attr_unique_id (fst cycle2) = attr_unique_id (fst cycle1)"
    by (simp add: cycle2_eq cycle1_eq)
  from wr have zero: "republished (fst cycle2) (snd detached2) = 0"
    by (simp add: republished_def)
  from ls wr uid have one:
    "republished (fst cycle2)
        (async_fire_state_changed
           \<lparr>entity_id = ''climate.matter'', old_state = None, new_state = None\<rparr>
           (snd detached2)) = 1"
    "republished (fst cycle2)
        (async_fire_state_changed
           \<lparr>entity_id = ''climate.google'', old_state = None, new_state = None\<rparr>
           (snd detached2)) = 1"
    by (simp_all add: republished_def async_fire_state_changed_def notify_written)
  from out ls zero one show ?thesis by simp
qed

subsection \<open>Attach\<close>

text \<open>
  C6, as the claim states it: attach would perform exactly one re-publish itself. On the
  example host it performs none: \<open>async_update\<close> has an empty body.
\<close>

theorem attach_republish_counterexample:
  "republished (fst (async_added_to_hass proxy0 hass0)) (snd (async_added_to_hass proxy0 hass0))
     = republished proxy0 hass0
   \<and> republished (fst (async_added_to_hass proxy0 hass0)) (snd (async_added_to_hass proxy0 hass0))
     \<noteq> republished proxy0 hass0 + 1"
  by (simp add: republished_def attach_proxy0 hass0_fields)

text \<open>
  C6, amended. Attach registers one listener covering both source identifiers and
  records its remover; from then on a state-change notification of either source
  triggers one re-publish of the proxy's state through that listener (next to one for
  each earlier listener bound to the proxy). Attach itself writes no state, issues no
  service call and leaves the registry as it was.
\<close>

theorem attach_subscribes:
  "async_added_to_hass self hass = (self1, hass1) \<Longrightarrow>
     listeners hass1 = listeners hass @
        [\<lparr>handle = next_handle hass,
          entity_ids = [matter_entity_id self, google_entity_id self],
          action = HandleSourceStateChange self\<rparr>]
   \<and> self1 = self\<lparr>remove_listeners := remove_listeners self @ [next_handle hass]\<rparr>
   \<and> written hass1 = written hass
   \<and> calls hass1 = calls hass
   \<and> states hass1 = states hass
   \<and> (entity_id ev = matter_entity_id self \<or> entity_id ev = google_entity_id self \<longrightarrow>
        republished self1 (async_fire_state_changed ev hass1) =
          republished self1 hass1 + 1 +
          length (filter (\<lambda>l. entity_id ev \<in> set (entity_ids l) \<and>
                            bound_to (action l) = attr_unique_id self) (listeners hass)))"
proof -
  assume a: "async_added_to_hass self hass = (self1, hass1)"
  let ?l = "\<lparr>handle = next_handle hass,
          entity_ids = [matter_entity_id self, google_entity_id self],
          action = HandleSourceStateChange self\<rparr>"
  from a have s1: "self1 = self\<lparr>remove_listeners := remove_listeners self @ [next_handle hass]\<rparr>"
    and h1: "hass1 = hass\<lparr>listeners := listeners hass @ [?l], next_handle := Suc (next_handle hass)\<rparr>"
    by (auto simp: async_added_to_hass_def async_track_state_change_event_def async_update_def)
  have cnt: "count_list (map f xs) u = length (filter (\<lambda>x. f x = u) xs)" for f :: "listener \<Rightarrow> string" and xs u
    by (induction xs) auto
  have "republished self1 (async_fire_state_changed ev hass1) =
          republished self1 hass1 + 1 +
          length (filter (\<lambda>l. entity_id ev \<in> set (entity_ids l) \<and>
                            bound_to (action l) = attr_unique_id self) (listeners hass))"
    if "entity_id ev = matter_entity_id self \<or> entity_id ev = google_entity_id self"
    using that s1 h1
    by (auto simp: republished_def async_fire_state_changed_def notify_written cnt)
  with s1 h1 show ?thesis by simp
qed

theorem attach_subscribes_witness:
  "republished proxy0
     (async_fire_state_changed
        \<lparr>entity_id = ''climate.google'', old_state = None, new_state = None\<rparr>
        (snd (async_added_to_hass proxy0 hass0))) = 1
   \<and> republished proxy0 (snd (async_added_to_hass proxy0 hass0)) = 0"
proof -
  let ?p1 = "fst (async_added_to_hass proxy0 hass0)"
  let ?h1 = "snd (async_added_to_hass proxy0 hass0)"
  let ?ev = "\<lparr>entity_id = ''climate.google'', old_state = None, new_state = None\<rparr>"
  have att: "async_added_to_hass proxy0 hass0 = (?p1, ?h1)"
    by simp
  have src: "entity_id ?ev = matter_entity_id proxy0 \<or> entity_id ?ev = google_entity_id proxy0"
    by (simp add: proxy0_fields)
  have zero: "republished ?p1 ?h1 = 0"
    by (simp add: attach_proxy0 republished_def hass0_fields)
  have same: "republished proxy0 hass = republished ?p1 hass" for hass
    by (simp add: republished_def attach_proxy0)
  from attach_subscribes [OF att, of ?ev] src
  have "republished ?p1 (async_fire_state_changed ?ev ?h1) =
      republished ?p1 ?h1 + 1 +
      length (filter (\<lambda>l. entity_id ?ev \<in> set (entity_ids l) \<and>
                        bound_to (action l) = attr_unique_id proxy0) (listeners hass0))"
    by blast
  with zero show ?thesis
    by (simp add: same hass0_fields)
qed

section \<open>Temperature limits\<close>

text \<open>
  C7. \<open>min_temp\<close> and \<open>max_temp\<close> return the primary's \<^verbatim>\<open>min_temp\<close> and
  \<^verbatim>\<open>max_temp\<close> attributes when the record carries them; when the record or the
  attribute is absent they return exactly 7 and 35.
\<close>

theorem min_max_temp:
  "(\<forall>s v. states hass (matter_entity_id self) = Some s \<and>
           map_of (attributes s) ''min_temp'' = Some v \<longrightarrow> min_temp self hass = v)
   \<and> (\<forall>s v. states hass (matter_entity_id self) = Some s \<and>
           map_of (attributes s) ''max_temp'' = Some v \<longrightarrow> max_temp self hass = v)
   \<and> (states hass (matter_entity_id self) = None \<longrightarrow>
         min_temp self hass = PInt 7 \<and> max_temp self hass = PInt 35)
   \<and> (\<forall>s. states hass (matter_entity_id self) = Some s \<and>
           map_of (attributes s) ''min_temp'' = None \<longrightarrow> min_temp self hass = PInt 7)
   \<and> (\<forall>s. states hass (matter_entity_id self) = Some s \<and>
           map_of (attributes s) ''max_temp'' = None \<longrightarrow> max_temp self hass = PInt 35)"
  by (auto simp: min_temp_def max_temp_def dict_get_def)

theorem min_max_temp_witness:
  "min_temp proxy0 hass0 = PInt 10 \<and> max_temp proxy0 hass0 = PInt 30
   \<and> min_temp proxy0 (hass0\<lparr>states := Map.empty\<rparr>) = PInt 7
   \<and> max_temp proxy0 (hass0\<lparr>states := Map.empty\<rparr>) = PInt 35"
proof -
  have "states hass0 (matter_entity_id proxy0) = Some matter_heat
      \<and> map_of (attributes matter_heat) ''min_temp'' = Some (PInt 10)
      \<and> map_of (attributes matter_heat) ''max_temp'' = Some (PInt 30)"
    by (simp add: hass0_def proxy0_def init_def matter_heat_def)
  moreover have "states (hass0\<lparr>states := Map.empty\<rparr>) (matter_entity_id proxy0) = None"
    by simp
  ultimately show ?thesis
    using min_max_temp [of hass0 proxy0] min_max_temp [of "hass0\<lparr>states := Map.empty\<rparr>" proxy0]
    by blast
qed

section \<open>Mode forwarding\<close>

text \<open>
  C8. For every mode value, \<open>async_set_hvac_mode\<close> issues exactly one call,
  \<^verbatim>\<open>climate.set_hvac_mode\<close>, and \<open>async_set_fan_mode\<close> exactly one call,
  \<^verbatim>\<open>climate.set_fan_mode\<close>, each addressed to the secondary source and carrying
  that mode. The mode is not inspected: whether the operation returns or raises is the
  dispatcher's answer to that call.
\<close>

theorem mode_forwarding:
  "calls (snd (async_set_hvac_mode self mode hass)) =
     calls hass @
       [\<lparr>domain = ''climate'', service = ''set_hvac_mode'',
         service_data = [(''entity_id'', PStr (google_entity_id self)), (''hvac_mode'', mode)]\<rparr>]
   \<and> fst (async_set_hvac_mode self mode hass) =
     (case service_error hass
        \<lparr>domain = ''climate'', service = ''set_hvac_mode'',
         service_data = [(''entity_id'', PStr (google_entity_id self)), (''hvac_mode'', mode)]\<rparr>
      of None \<Rightarrow> Returned | Some e \<Rightarrow> Raised e)
   \<and> calls (snd (async_set_fan_mode self mode hass)) =
     calls hass @
       [\<lparr>domain = ''climate'', service = ''set_fan_mode'',
         service_data = [(''entity_id'', PStr (google_entity_id self)), (''fan_mode'', mode)]\<rparr>]
   \<and> fst (async_set_fan_mode self mode hass) =
     (case service_error hass
        \<lparr>domain = ''climate'', service = ''set_fan_mode'',
         service_data = [(''entity_id'', PStr (google_entity_id self)), (''fan_mode'', mode)]\<rparr>
      of None \<Rightarrow> Returned | Some e \<Rightarrow> Raised e)"
  by (simp add: async_set_hvac_mode_def async_set_fan_mode_def async_call_def
      logger_debug_def Let_def)

theorem mode_forwarding_witness:
  "calls (snd (async_set_hvac_mode proxy0 (PStr ''cool'') hass0)) =
     [\<lparr>domain = ''climate'', service = ''set_hvac_mode'',
       service_data = [(''entity_id'', PStr ''climate.google''), (''hvac_mode'', PStr ''cool'')]\<rparr>]
   \<and> calls (snd (async_set_fan_mode proxy0 PNone hass0)) =
     [\<lparr>domain = ''climate'', service = ''set_fan_mode'',
       service_data = [(''entity_id'', PStr ''climate.google''), (''fan_mode'', PNone)]\<rparr>]"
proof -
  have "calls hass0 = []" "google_entity_id proxy0 = ''climate.google''"
    by (simp_all add: hass0_def proxy0_def init_def)
  then show ?thesis
    using mode_forwarding [of proxy0 "PStr ''cool''" hass0] mode_forwarding [of proxy0 PNone hass0]
    by simp
qed

section \<open>Reads are not cached\<close>

text \<open>
  C9. The read accessors cache nothing: each result is a function of the registry's
  current contents and the two source identifiers alone. Two hosts with equal registry
  contents give equal results, whatever else differs between them (subscriptions, issued
  calls, re-publishes, log) and whatever the proxy has recorded.
\<close>

theorem reads_depend_on_registry_only:
  assumes "states hass = states hass'"
    and "matter_entity_id self = matter_entity_id self'"
    and "google_entity_id self = google_entity_id self'"
  shows "current_temperature self hass = current_temperature self' hass'
    \<and> target_temperature self hass = target_temperature self' hass'
    \<and> hvac_mode self hass = hvac_mode self' hass'
    \<and> hvac_modes self hass = hvac_modes self' hass'
    \<and> fan_mode self hass = fan_mode self' hass'
    \<and> fan_modes self hass = fan_modes self' hass'
    \<and> current_humidity self hass = current_humidity self' hass'
    \<and> min_temp self hass = min_temp self' hass'
    \<and> max_temp self hass = max_temp self' hass'
    \<and> available self hass = available self' hass'"
  using assms
  by (simp add: current_temperature_def target_temperature_def hvac_mode_def hvac_modes_def
      fan_mode_def fan_modes_def current_humidity_def min_temp_def max_temp_def available_def)


theorem reads_depend_on_registry_only_witness:
  "current_temperature (fst (async_added_to_hass proxy0 hass0))
     (async_fire_state_changed \<lparr>entity_id = ''climate.matter'', old_state = None, new_state = None\<rparr>
        (snd (async_set_temperature proxy0 [(''temperature'', PInt 22)]
           (snd (async_added_to_hass proxy0 hass0)))))
   = current_temperature proxy0 hass0
   \<and> available (fst (async_added_to_hass proxy0 hass0))
     (async_fire_state_changed \<lparr>entity_id = ''climate.matter'', old_state = None, new_state = None\<rparr>
        (snd (async_set_temperature proxy0 [(''temperature'', PInt 22)]
           (snd (async_added_to_hass proxy0 hass0)))))
   = available proxy0 hass0"
proof -
  let ?p1 = "fst (async_added_to_hass proxy0 hass0)"
  let ?h1 = "snd (async_added_to_hass proxy0 hass0)"
  let ?h2 = "snd (async_set_temperature proxy0 [(''temperature'', PInt 22)] ?h1)"
  let ?h3 = "async_fire_state_changed
      \<lparr>entity_id = ''climate.matter'', old_state = None, new_state = None\<rparr> ?h2"
  have h1: "states ?h1 = states hass0"
    by (simp add: async_added_to_hass_def async_track_state_change_event_def async_update_def)
  have h2: "states ?h2 = states ?h1"
    by (simp add: async_set_temperature_def async_call_def logger_debug_def Let_def)
  have h3: "states ?h3 = states ?h2"
    by (simp add: async_fire_state_changed_def notify_written)
  have ids: "matter_entity_id ?p1 = matter_entity_id proxy0"
    "google_entity_id ?p1 = google_entity_id proxy0"
    by (simp_all add: async_added_to_hass_def async_track_state_change_event_def Let_def)
  from h1 h2 h3 have "states ?h3 = states hass0" by simp
  from reads_depend_on_registry_only [OF this ids] show ?thesis by simp
qed

section \<open>An unavailable secondary source\<close>

text \<open>
  C10. When the secondary record exists and its raw state is "unavailable",
  \<open>hvac_mode\<close> returns the string "unavailable", not \<open>None\<close>, while
  \<open>available\<close> is false.
\<close>

theorem hvac_mode_unavailable:
  "states hass (google_entity_id self) = Some gs \<Longrightarrow> state gs = ''unavailable'' \<Longrightarrow>
     hvac_mode self hass = PStr ''unavailable'' \<and> hvac_mode self hass \<noteq> PNone
     \<and> \<not> available self hass"
  by (simp add: hvac_mode_def available_def Let_def split: option.splits)

theorem hvac_mode_unavailable_witness:
  "hvac_mode proxy0
     (hass0\<lparr>states := (states hass0)(''climate.google'' \<mapsto> google_heat\<lparr>state := ''unavailable''\<rparr>)\<rparr>)
     = PStr ''unavailable''
   \<and> \<not> available proxy0
     (hass0\<lparr>states := (states hass0)(''climate.google'' \<mapsto> google_heat\<lparr>state := ''unavailable''\<rparr>)\<rparr>)"
proof -
  let ?h = "hass0\<lparr>states := (states hass0)(''climate.google'' \<mapsto> google_heat\<lparr>state := ''unavailable''\<rparr>)\<rparr>"
  have a: "states ?h (google_entity_id proxy0) = Some (google_heat\<lparr>state := ''unavailable''\<rparr>)"
    by (simp add: proxy0_def init_def)
  have b: "state (google_heat\<lparr>state := ''unavailable''\<rparr>) = ''unavailable''"
    by simp
  from hvac_mode_unavailable [OF a b] show ?thesis by simp
qed

end
